theory Spec2Isabelle
  imports Complex_Main
begin

section \<open>osiris\_utils: the numerical utilities of \<open>utils.py\<close>\<close>

text \<open>
  The functions of \<open>osiris_utils/utils.py\<close> that compute on numbers and arrays:
  \<open>courant2D\<close>, \<open>time_estimation\<close>, \<open>filesize_estimation\<close>,
  \<open>transverse_average\<close> and \<open>integrate\<close>.

  Numbers. Python's \<open>float\<close> (and numpy's \<open>float64\<close>) is modelled by \<open>real\<close>:
  every operation is exact, and the values \<open>inf\<close> and \<open>nan\<close> do not exist. What the
  theorems below say is therefore what the formulas of the code compute in exact
  arithmetic; rounding, overflow and underflow are outside the model.

  Exceptions. A raise is a value \<open>Inl e\<close> of the result type \<open>error + 'a\<close>. The code
  raises \<open>ValueError\<close> itself (the two rank checks); Python raises
  \<open>ZeroDivisionError\<close> when the divisor of \<open>/\<close> is a Python number equal to zero.
\<close>

subsection \<open>Errors\<close>

datatype error = ValueError | ZeroDivisionError

text \<open>Python's \<open>a / b\<close> on Python numbers.\<close>

definition py_truediv :: "real \<Rightarrow> real \<Rightarrow> error + real" where
  "py_truediv a b = (if b = 0 then Inl ZeroDivisionError else Inr (a / b))"

subsection \<open>\<open>courant2D\<close>\<close>

text \<open>
  \<^verbatim>\<open>
  def courant2D(dx, dy):
      dt = 1 / (np.sqrt(1/dx**2 + 1/dy**2))
      return dt
  \<close>
  The two inner divisions are divisions of Python numbers (the docstring gives
  \<open>dx\<close> and \<open>dy\<close> as \<open>float\<close>) and are evaluated left to right; each raises when
  its divisor is zero. The outer division has a numpy scalar as divisor, which is
  positive whenever the inner divisions succeeded (lemma \<open>courant2D_divisor_pos\<close>),
  so it is written as plain division. There is no other check in the function.
\<close>

definition courant2D :: "real \<Rightarrow> real \<Rightarrow> error + real" where
  "courant2D dx dy =
     (case py_truediv 1 (dx ^ 2) of
        Inl e \<Rightarrow> Inl e
      | Inr a \<Rightarrow>
          (case py_truediv 1 (dy ^ 2) of
             Inl e \<Rightarrow> Inl e
           | Inr b \<Rightarrow> Inr (1 / sqrt (a + b))))"

subsection \<open>\<open>time_estimation\<close> and \<open>filesize_estimation\<close>\<close>

text \<open>
  \<^verbatim>\<open>
  def time_estimation(n_cells, ppc, push_time, t_steps, n_cpu, hours = False):
      time = (n_cells*ppc*push_time*t_steps)/n_cpu
      if hours:
          return time/3600
      else:
          return time

  def filesize_estimation(n_gridpoints):
      return n_gridpoints*4/(1024**2)
  \<close>
\<close>

definition time_estimation ::
  "real \<Rightarrow> real \<Rightarrow> real \<Rightarrow> real \<Rightarrow> real \<Rightarrow> bool \<Rightarrow> error + real" where
  "time_estimation n_cells ppc push_time t_steps n_cpu hours =
     (case py_truediv (n_cells * ppc * push_time * t_steps) n_cpu of
        Inl e \<Rightarrow> Inl e
      | Inr time \<Rightarrow> if hours then py_truediv time 3600 else Inr time)"

definition filesize_estimation :: "real \<Rightarrow> error + real" where
  "filesize_estimation n_gridpoints = py_truediv (n_gridpoints * 4) (1024 ^ 2)"

subsection \<open>Arrays\<close>

text \<open>
  A numpy array is its shape and its buffer of elements in row-major order, the
  order numpy uses by default. \<open>len(a.shape)\<close> is \<open>length (shape a)\<close>. The array is
  well formed when the buffer holds as many elements as the shape says.
\<close>

record ndarray =
  shape :: "nat list"
  flat :: "real list"

definition wf_ndarray :: "ndarray \<Rightarrow> bool" where
  "wf_ndarray a = (length (flat a) = prod_list (shape a))"

text \<open>\<open>a[i, j]\<close> of a two-dimensional array with \<open>C\<close> columns.\<close>

definition at2 :: "ndarray \<Rightarrow> nat \<Rightarrow> nat \<Rightarrow> real" where
  "at2 a i j = flat a ! (i * (shape a ! 1) + j)"

text \<open>
  \<open>np.mean(a, axis = 1)\<close> of a two-dimensional array of shape \<open>(R, C)\<close>: the array
  of shape \<open>(R,)\<close> whose \<open>i\<close>-th element is the sum of row \<open>i\<close> divided by \<open>C\<close>. For
  \<open>C = 0\<close> numpy yields \<open>nan\<close>, which \<open>real\<close> does not have; the theorems about the
  mean are stated for \<open>C > 0\<close>.
\<close>

definition np_mean_axis1 :: "ndarray \<Rightarrow> ndarray" where
  "np_mean_axis1 a =
     (let R = shape a ! 0; C = shape a ! 1
      in \<lparr>shape = [R],
          flat = map (\<lambda>i. sum_list (take C (drop (i * C) (flat a))) / real C) [0..<R]\<rparr>)"

text \<open>
  \<open>np.flip(a)\<close> reverses every axis, which reverses the row-major buffer;
  unary minus negates every element.
\<close>

definition np_flip :: "ndarray \<Rightarrow> ndarray" where
  "np_flip a = a\<lparr>flat := rev (flat a)\<rparr>"

definition np_negative :: "ndarray \<Rightarrow> ndarray" where
  "np_negative a = a\<lparr>flat := map uminus (flat a)\<rparr>"

text \<open>\<open>np.cumsum\<close> of a one-dimensional buffer: the running sums.\<close>

fun cumsum_from :: "real \<Rightarrow> real list \<Rightarrow> real list" where
  "cumsum_from acc [] = []"
| "cumsum_from acc (x # xs) = (acc + x) # cumsum_from (acc + x) xs"

definition np_cumsum :: "real list \<Rightarrow> real list" where
  "np_cumsum xs = cumsum_from 0 xs"

subsection \<open>\<open>transverse_average\<close>\<close>

text \<open>
  \<^verbatim>\<open>
  def transverse_average(data):
      if len(data.shape) != 2:
          raise ValueError("The input data must be a 2D array.")
      return np.mean(data, axis = 1)
  \<close>
\<close>

definition transverse_average :: "ndarray \<Rightarrow> error + ndarray" where
  "transverse_average data =
     (if length (shape data) \<noteq> 2 then Inl ValueError
      else Inr (np_mean_axis1 data))"

subsection \<open>The library's cumulative Simpson rule\<close>

text \<open>
  Modelled from the spec: \<open>scipy.integrate.cumulative_simpson\<close>, which
  \<open>integrate\<close> calls with \<open>dx = dx\<close> and \<open>initial = 0\<close>, is a function of the scipy
  library and its code is not in the repository. The spec (4.4) fixes what it is to
  do: a cumulative integral by composite Simpson (piecewise-quadratic)
  interpolation between equally spaced samples, with the accumulator at \<open>initial\<close>
  at the first sample; a single sample gives the one-element result; two samples
  fall back to the trapezoidal estimate. The definitions below follow the library's
  scheme for equal intervals on a one-dimensional input: with three or more
  samples, the integral over each sub-interval is taken from the parabola through
  three neighbouring samples (\<open>h1\<close>: the left interval of samples \<open>i, i+1, i+2\<close>;
  \<open>h2\<close>: the right interval), even-numbered sub-intervals use \<open>h1\<close>, odd-numbered
  ones and the last one use \<open>h2\<close>, and the sub-integrals are summed cumulatively.
  With fewer than three samples the library's cumulative trapezoidal rule is used,
  which rejects an empty input with \<open>ValueError\<close>.
\<close>

definition cumulative_trapezoid :: "real list \<Rightarrow> real \<Rightarrow> error + real list" where
  "cumulative_trapezoid y dx =
     (if length y = 0 then Inl ValueError
      else Inr (np_cumsum (map2 (\<lambda>a b. dx * (a + b) / 2) (tl y) (butlast y))))"

definition simpson_equal_intervals :: "real list \<Rightarrow> real \<Rightarrow> real list" where
  "simpson_equal_intervals y d =
     map (\<lambda>i. d / 3 * (5 * (y ! i) / 4 + 2 * (y ! (i + 1)) - (y ! (i + 2)) / 4))
       [0..<length y - 2]"

definition sub_integrals :: "real list \<Rightarrow> real \<Rightarrow> real list" where
  "sub_integrals y d =
     (let h1 = simpson_equal_intervals y d;
          h2 = rev (simpson_equal_intervals (rev y) d);
          n = length h1 + 1
      in map (\<lambda>k. if k = n - 1 then h2 ! (length h2 - 1)
                  else if even k then h1 ! k
                  else h2 ! (k - 1)) [0..<n])"

definition cumulative_simpson :: "real list \<Rightarrow> real \<Rightarrow> real \<Rightarrow> error + real list" where
  "cumulative_simpson y dx initial =
     (case (if length y < 3 then cumulative_trapezoid y dx
            else Inr (np_cumsum (sub_integrals y dx))) of
        Inl e \<Rightarrow> Inl e
      | Inr res \<Rightarrow> Inr (initial # map (\<lambda>r. r + initial) res))"

subsection \<open>\<open>integrate\<close>\<close>

text \<open>
  \<^verbatim>\<open>
  def integrate(array, dx):
      if len(array.shape) != 1:
          raise ValueError(f"Array must be 1D\n Array shape: {array.shape}")
      flip_array = np.flip(array)
      int = -scipy.integrate.cumulative_simpson(flip_array, dx = dx, initial = 0)
      return np.flip(int)
  \<close>
\<close>

definition integrate :: "ndarray \<Rightarrow> real \<Rightarrow> error + ndarray" where
  "integrate array dx =
     (if length (shape array) \<noteq> 1 then Inl ValueError
      else
        (let flip_array = np_flip array
         in case cumulative_simpson (flat flip_array) dx 0 of
              Inl e \<Rightarrow> Inl e
            | Inr res \<Rightarrow>
                Inr (np_flip (np_negative \<lparr>shape = [length res], flat = res\<rparr>))))"

subsection \<open>The two-stage pipeline\<close>

text \<open>
  Modelled from the spec: \<open>longitudinal_profile\<close> (spec 4.5, DiagnosticsPipeline)
  has no function in \<open>utils.py\<close>. The spec gives it as \<open>transverse_average(field)\<close>
  followed by \<open>integrate(result, dx)\<close>, the first failure of either stage being
  propagated unchanged.
\<close>

definition then_stage :: "error + 'a \<Rightarrow> ('a \<Rightarrow> error + 'b) \<Rightarrow> error + 'b" where
  "then_stage r f = (case r of Inl e \<Rightarrow> Inl e | Inr x \<Rightarrow> f x)"

definition longitudinal_profile :: "ndarray \<Rightarrow> real \<Rightarrow> error + ndarray" where
  "longitudinal_profile field dx =
     then_stage (transverse_average field) (\<lambda>result. integrate result dx)"

text \<open>
  The spec's description of \<open>integrate\<close> on the samples of a one-dimensional
  profile, step by step: reverse the samples; take the cumulative Simpson
  integral of the reversed samples with step \<open>dx\<close>, starting from 0; negate every
  value; reverse back.
\<close>

definition integrate_spec :: "real list \<Rightarrow> real \<Rightarrow> error + real list" where
  "integrate_spec samples dx =
     (case cumulative_simpson (rev samples) dx 0 of
        Inl e \<Rightarrow> Inl e
      | Inr cumulative \<Rightarrow> Inr (rev (map uminus cumulative)))"

text \<open>
  Composite Simpson's rule over the first \<open>m\<close> pairs of intervals: each pair
  contributes \<open>d / 3 * (y\<^sub>2\<^sub>j + 4 y\<^sub>2\<^sub>j\<^sub>+\<^sub>1 + y\<^sub>2\<^sub>j\<^sub>+\<^sub>2)\<close>.
\<close>

definition composite_simpson :: "real list \<Rightarrow> real \<Rightarrow> nat \<Rightarrow> real" where
  "composite_simpson y d m =
     (\<Sum>j<m. d / 3 * (y ! (2 * j) + 4 * y ! (2 * j + 1) + y ! (2 * j + 2)))"

section \<open>Properties\<close>

subsection \<open>The stability limit\<close>

lemma courant2D_divisor_pos:
  assumes "dx \<noteq> 0" and "dy \<noteq> 0"
  shows "0 < sqrt (1 / dx ^ 2 + 1 / dy ^ 2)"
proof -
  have "0 < 1 / dx ^ 2" and "0 < 1 / dy ^ 2"
    using assms by simp_all
  then have "0 < 1 / dx ^ 2 + 1 / dy ^ 2"
    by (rule add_pos_pos)
  then show ?thesis
    by simp
qed

lemma courant2D_nonzero:
  assumes "dx \<noteq> 0" and "dy \<noteq> 0"
  shows "courant2D dx dy = Inr (1 / sqrt (1 / dx ^ 2 + 1 / dy ^ 2))"
  using assms by (simp add: courant2D_def py_truediv_def)





text \<open>
  C6: for \<open>dx > 0\<close> and \<open>dy > 0\<close> the function returns \<open>1 / sqrt (1/dx\<^sup>2 + 1/dy\<^sup>2)\<close>;
  the value is strictly positive, and for \<open>dy = dx\<close> it is \<open>dx / sqrt 2\<close>.
\<close>

theorem courant2D_formula:
  assumes "0 < dx" and "0 < dy"
  shows "courant2D dx dy = Inr (1 / sqrt (1 / dx ^ 2 + 1 / dy ^ 2))
         \<and> 0 < 1 / sqrt (1 / dx ^ 2 + 1 / dy ^ 2)
         \<and> courant2D dx dx = Inr (dx / sqrt 2)"
proof -
  have nz: "dx \<noteq> 0" "dy \<noteq> 0"
    using assms by simp_all
  have pos: "0 < 1 / sqrt (1 / dx ^ 2 + 1 / dy ^ 2)"
    using courant2D_divisor_pos [OF nz] by simp
  have "1 / dx ^ 2 + 1 / dx ^ 2 = 2 / dx ^ 2"
    by simp
  then have "sqrt (1 / dx ^ 2 + 1 / dx ^ 2) = sqrt 2 / dx"
    using assms(1) by (simp add: real_sqrt_divide)
  then have "1 / sqrt (1 / dx ^ 2 + 1 / dx ^ 2) = dx / sqrt 2"
    by simp
  then have "courant2D dx dx = Inr (dx / sqrt 2)"
    using nz(1) by (simp add: courant2D_nonzero)
  then show ?thesis
    using pos nz by (simp add: courant2D_nonzero)
qed

theorem courant2D_formula_witness:
  "(0::real) < 3 \<and> (0::real) < 4
   \<and> courant2D 3 4 = Inr (1 / sqrt (1 / 3 ^ 2 + 1 / 4 ^ 2))
   \<and> courant2D 3 3 = Inr (3 / sqrt 2)"
  using courant2D_formula [of 3 4] by simp

subsection \<open>Run time and file size\<close>



text \<open>
  C8: for positive run parameters \<open>time_estimation\<close> returns
  \<open>(n_cells * ppc * push_time * t_steps) / n_cpu\<close>, divided by 3600 when \<open>hours\<close> is
  true; \<open>filesize_estimation n\<close> returns \<open>n * 4 / 1024\<^sup>2\<close>, which is 4 at
  \<open>n = 1024 * 1024\<close>.
\<close>

theorem estimation_formulas:
  assumes "0 < n_cells" and "0 < ppc" and "0 < push_time" and "0 < t_steps"
    and "0 < n_cpu"
  shows "time_estimation n_cells ppc push_time t_steps n_cpu False
           = Inr ((n_cells * ppc * push_time * t_steps) / n_cpu)
         \<and> time_estimation n_cells ppc push_time t_steps n_cpu True
           = Inr ((n_cells * ppc * push_time * t_steps) / n_cpu / 3600)
         \<and> filesize_estimation n_gridpoints = Inr (n_gridpoints * 4 / 1024 ^ 2)
         \<and> filesize_estimation (1024 * 1024) = Inr 4"
  using assms by (simp add: time_estimation_def filesize_estimation_def py_truediv_def)

theorem estimation_formulas_witness:
  "time_estimation 100 10 (1 / 1000) 1000 1 False = Inr 1000
   \<and> time_estimation 100 10 (1 / 1000) 1000 1 True = Inr (1000 / 3600)
   \<and> filesize_estimation (1024 * 1024) = Inr 4"
  using estimation_formulas [of 100 10 "1 / 1000" 1000 1 "1024 * 1024"] by simp

subsection \<open>Running sums and the cumulative Simpson rule\<close>

lemma length_cumsum_from: "length (cumsum_from acc xs) = length xs"
  by (induction xs arbitrary: acc) simp_all

lemma cumsum_from_nth:
  "i < length xs \<Longrightarrow> cumsum_from acc xs ! i = acc + sum_list (take (Suc i) xs)"
proof (induction xs arbitrary: acc i)
  case Nil
  then show ?case by simp
next
  case (Cons x xs)
  show ?case
  proof (cases i)
    case 0
    then show ?thesis by simp
  next
    case (Suc k)
    with Cons.prems have "k < length xs" by simp
    from Cons.IH [OF this, of "acc + x"] Suc show ?thesis
      by simp
  qed
qed

lemma length_np_cumsum: "length (np_cumsum xs) = length xs"
  by (simp add: np_cumsum_def length_cumsum_from)

lemma length_simpson_equal_intervals:
  "length (simpson_equal_intervals y d) = length y - 2"
  by (simp add: simpson_equal_intervals_def)

lemma length_sub_integrals: "length (sub_integrals y d) = length y - 2 + 1"
  by (simp add: sub_integrals_def Let_def length_simpson_equal_intervals)

lemma cumulative_simpson_shape:
  assumes "y \<noteq> []"
  shows "\<exists>r. cumulative_simpson y dx initial = Inr (initial # r) \<and> length r = length y - 1"
proof (cases "length y < 3")
  case True
  with assms show ?thesis
    by (simp add: cumulative_simpson_def cumulative_trapezoid_def length_np_cumsum)
next
  case False
  then show ?thesis
    by (simp add: cumulative_simpson_def length_np_cumsum length_sub_integrals)
qed

lemma h1_nth:
  assumes "i + 2 < length y"
  shows "simpson_equal_intervals y d ! i
         = d / 3 * (5 * (y ! i) / 4 + 2 * (y ! (i + 1)) - (y ! (i + 2)) / 4)"
  using assms by (simp add: simpson_equal_intervals_def)

lemma h2_nth:
  assumes "i + 2 < length y"
  shows "rev (simpson_equal_intervals (rev y) d) ! i
         = d / 3 * (5 * (y ! (i + 2)) / 4 + 2 * (y ! (i + 1)) - (y ! i) / 4)"
proof -
  define k where "k = length y - 3 - i"
  have k: "k + 2 < length y" "length y - 2 - Suc i = k"
    and rv: "length y - Suc k = i + 2" "length y - Suc (k + 1) = i + 1"
      "length y - Suc (k + 2) = i"
    using assms by (simp_all add: k_def)
  have "rev (simpson_equal_intervals (rev y) d) ! i
        = simpson_equal_intervals (rev y) d ! k"
    using assms k(2) by (simp add: rev_nth length_simpson_equal_intervals)
  also have "\<dots> = d / 3 * (5 * (rev y ! k) / 4
                 + 2 * (rev y ! (k + 1)) - (rev y ! (k + 2)) / 4)"
    using k(1) by (intro h1_nth) simp
  also have "rev y ! k = y ! (i + 2)"
    using k(1) rv(1) by (simp add: rev_nth)
  also have "rev y ! (k + 1) = y ! (i + 1)"
    using k(1) rv(2) by (simp add: rev_nth)
  also have "rev y ! (k + 2) = y ! i"
    using k(1) rv(3) by (simp add: rev_nth)
  finally show ?thesis .
qed

lemma sub_integrals_nth:
  assumes "k < length y - 2 + 1"
  shows "sub_integrals y d ! k =
         (if k = length y - 2
          then rev (simpson_equal_intervals (rev y) d) ! (length y - 2 - 1)
          else if even k then simpson_equal_intervals y d ! k
          else rev (simpson_equal_intervals (rev y) d) ! (k - 1))"
  unfolding sub_integrals_def Let_def
  using assms by (simp add: length_simpson_equal_intervals del: upt_Suc)

lemma sub_integrals_pair:
  assumes "2 * j + 2 < length y"
  shows "sub_integrals y d ! (2 * j) + sub_integrals y d ! (2 * j + 1)
         = d / 3 * (y ! (2 * j) + 4 * y ! (2 * j + 1) + y ! (2 * j + 2))"
proof -
  let ?h1 = "simpson_equal_intervals y d"
  let ?h2 = "rev (simpson_equal_intervals (rev y) d)"
  have "2 * j \<noteq> length y - 2" and "2 * j < length y - 2 + 1"
    using assms by arith+
  then have a: "sub_integrals y d ! (2 * j) = ?h1 ! (2 * j)"
    by (simp add: sub_integrals_nth)
  have b: "sub_integrals y d ! (2 * j + 1) = ?h2 ! (2 * j)"
  proof (cases "2 * j + 1 = length y - 2")
    case True
    then have "length y - 2 - 1 = 2 * j" by arith
    with True assms show ?thesis
      by (simp add: sub_integrals_nth)
  next
    case False
    with assms show ?thesis
      by (simp add: sub_integrals_nth)
  qed
  show ?thesis
    unfolding a b using assms
    by (simp add: h1_nth h2_nth algebra_simps)
qed

lemma sum_list_take_pairs:
  assumes "2 * m \<le> length xs"
  shows "sum_list (take (2 * m) xs) = (\<Sum>j<m. xs ! (2 * j) + xs ! (2 * j + 1))"
  using assms
proof (induction m)
  case 0
  then show ?case by simp
next
  case (Suc m)
  then have lt: "2 * m < length xs" "Suc (2 * m) < length xs"
    by simp_all
  have "take (2 * Suc m) xs = take (2 * m) xs @ [xs ! (2 * m), xs ! (Suc (2 * m))]"
    using lt by (simp add: take_Suc_conv_app_nth)
  with Suc show ?case
    by simp
qed

lemma cumulative_simpson_even_offsets:
  assumes "3 \<le> length y" and "2 * m < length y"
    and "cumulative_simpson y d 0 = Inr S"
  shows "S ! (2 * m) = composite_simpson y d m"
proof (cases m)
  case 0
  with assms show ?thesis
    by (auto simp: cumulative_simpson_def composite_simpson_def)
next
  case (Suc k)
  let ?sub = "sub_integrals y d"
  have S: "S = 0 # np_cumsum ?sub"
    using assms(1,3) by (auto simp: cumulative_simpson_def)
  have len: "2 * m \<le> length ?sub"
    using assms by (simp add: length_sub_integrals)
  have "S ! (2 * m) = np_cumsum ?sub ! (2 * k + 1)"
    using Suc S by simp
  also have "\<dots> = sum_list (take (2 * m) ?sub)"
    using len Suc by (simp add: np_cumsum_def cumsum_from_nth)
  also have "\<dots> = (\<Sum>j<m. ?sub ! (2 * j) + ?sub ! (2 * j + 1))"
    using len by (rule sum_list_take_pairs)
  also have "\<dots> = (\<Sum>j<m. d / 3 * (y ! (2 * j) + 4 * y ! (2 * j + 1) + y ! (2 * j + 2)))"
    using assms(2) by (intro sum.cong refl sub_integrals_pair) simp
  finally show ?thesis
    by (simp add: composite_simpson_def)
qed

lemma cumulative_simpson_empty: "cumulative_simpson [] dx initial = Inl ValueError"
  by (simp add: cumulative_simpson_def cumulative_trapezoid_def)

lemma cumulative_simpson_composite:
  assumes "2 * m < length y" and "cumulative_simpson y d 0 = Inr S"
  shows "S ! (2 * m) = composite_simpson y d m"
proof (cases "3 \<le> length y")
  case True
  with assms show ?thesis
    by (simp add: cumulative_simpson_even_offsets)
next
  case False
  with assms(1) have m: "m = 0" and ne: "y \<noteq> []"
    by auto
  from cumulative_simpson_shape [OF ne, of d 0] assms(2) m show ?thesis
    by (auto simp: composite_simpson_def)
qed

lemma integrate_rank1:
  assumes "length (shape a) = 1"
  shows "integrate a dx =
         (case cumulative_simpson (rev (flat a)) dx 0 of
            Inl e \<Rightarrow> Inl e
          | Inr S \<Rightarrow> Inr \<lparr>shape = [length S], flat = rev (map uminus S)\<rparr>)"
  using assms
  by (simp add: integrate_def np_flip_def np_negative_def Let_def split: sum.split)

lemma row_sum:
  assumes "i * C + C \<le> length xs"
  shows "sum_list (take C (drop (i * C) xs)) = (\<Sum>j<C. xs ! (i * C + j))"
proof -
  have len: "length (take C (drop (i * C) xs)) = C"
    using assms by simp
  have "sum_list (take C (drop (i * C) xs))
        = (\<Sum>j = 0..<C. take C (drop (i * C) xs) ! j)"
    using sum_list_sum_nth [of "take C (drop (i * C) xs)"] len by simp
  also have "\<dots> = (\<Sum>j = 0..<C. xs ! (i * C + j))"
    using assms by (intro sum.cong) simp_all
  finally show ?thesis
    by (simp add: lessThan_atLeast0)
qed

subsection \<open>The transverse average\<close>

text \<open>
  C3: for a two-dimensional array \<open>F\<close> of shape \<open>(R, C)\<close>, with \<open>C > 0\<close>,
  \<open>transverse_average F\<close> returns a one-dimensional array of shape \<open>(R,)\<close> whose
  \<open>i\<close>-th element is the arithmetic mean of row \<open>i\<close>; \<open>[[1,2,3],[4,5,6]]\<close> gives
  \<open>[2, 5]\<close>.
\<close>

theorem transverse_average_row_mean:
  assumes "shape F = [R, C]" and "wf_ndarray F" and "0 < C"
  shows "\<exists>p. transverse_average F = Inr p \<and> shape p = [R] \<and> length (flat p) = R
           \<and> (\<forall>i<R. flat p ! i = (\<Sum>j<C. at2 F i j) / real C)"
proof -
  have len: "length (flat F) = R * C"
    using assms by (simp add: wf_ndarray_def)
  let ?p = "np_mean_axis1 F"
  have p: "transverse_average F = Inr ?p"
    using assms(1) by (simp add: transverse_average_def)
  have sh: "shape ?p = [R]" "length (flat ?p) = R"
    using assms(1) by (simp_all add: np_mean_axis1_def)
  have "flat ?p ! i = (\<Sum>j<C. at2 F i j) / real C" if "i < R" for i
  proof -
    have "i * C + C \<le> R * C"
    proof -
      have "Suc i * C \<le> R * C"
        using that by (intro mult_le_mono1) simp
      then show ?thesis by (simp add: add.commute)
    qed
    then have "sum_list (take C (drop (i * C) (flat F))) = (\<Sum>j<C. flat F ! (i * C + j))"
      using len by (intro row_sum) simp
    then show ?thesis
      using that assms(1) by (simp add: np_mean_axis1_def at2_def)
  qed
  with p sh show ?thesis
    by blast
qed

theorem transverse_average_row_mean_witness:
  "wf_ndarray \<lparr>shape = [2, 3], flat = [1, 2, 3, 4, 5, 6]\<rparr>
   \<and> transverse_average \<lparr>shape = [2, 3], flat = [1, 2, 3, 4, 5, 6]\<rparr>
       = Inr \<lparr>shape = [2], flat = [2, 5]\<rparr>
   \<and> (\<Sum>j<3. at2 \<lparr>shape = [2, 3], flat = [1, 2, 3, 4, 5, 6]\<rparr> 1 j) / real 3 = 5"
proof -
  let ?F = "\<lparr>shape = [2, 3], flat = [1, 2, 3, 4, 5, 6]\<rparr>"
  have h: "shape ?F = [2, 3]" "wf_ndarray ?F" "0 < (3::nat)"
    by (simp_all add: wf_ndarray_def)
  have v: "transverse_average ?F = Inr \<lparr>shape = [2], flat = [2, 5]\<rparr>"
    by code_simp
  from transverse_average_row_mean [OF h] v
  have rows: "\<forall>i<2. [2, 5] ! i = (\<Sum>j<3. at2 ?F i j) / real 3"
    by simp
  have "(1::nat) < 2"
    by simp
  with rows have "[2, 5] ! 1 = (\<Sum>j<3. at2 ?F 1 j) / real 3"
    by blast
  moreover have "[2, 5 :: real] ! 1 = 5"
    by simp
  ultimately have "(\<Sum>j<3. at2 ?F 1 j) / real 3 = 5"
    by (rule trans [OF sym])
  with h(2) v show ?thesis
    by blast
qed

subsection \<open>The rank checks\<close>

text \<open>
  C4: \<open>transverse_average\<close> raises (the code's \<open>ValueError\<close>) on every input whose
  rank is not 2, and \<open>integrate\<close> on every input whose rank is not 1, whatever the
  elements and the spacing are: the result is the error and no array.
\<close>

theorem rank_checks:
  "(length (shape a) \<noteq> 2 \<longrightarrow> transverse_average a = Inl ValueError)
   \<and> (length (shape b) \<noteq> 1 \<longrightarrow> integrate b dx = Inl ValueError)"
  by (simp add: transverse_average_def integrate_def)

theorem rank_checks_witness:
  "transverse_average \<lparr>shape = [3], flat = [1, 2, 3]\<rparr> = Inl ValueError
   \<and> transverse_average \<lparr>shape = [1, 1, 2], flat = [1, 2]\<rparr> = Inl ValueError
   \<and> integrate \<lparr>shape = [2, 2], flat = [1, 2, 3, 4]\<rparr> 1 = Inl ValueError"
  using rank_checks [of "\<lparr>shape = [3], flat = [1, 2, 3]\<rparr>"
      "\<lparr>shape = [2, 2], flat = [1, 2, 3, 4]\<rparr>" 1]
    rank_checks [of "\<lparr>shape = [1, 1, 2], flat = [1, 2]\<rparr>"
      "\<lparr>shape = [2, 2], flat = [1, 2, 3, 4]\<rparr>" 1]
  by simp

subsection \<open>The line integral\<close>

text \<open>
  C1: on a one-dimensional array of \<open>n\<close> samples, \<open>integrate\<close> returns what the
  spec's four steps return: reverse the samples, take the cumulative Simpson
  integral of the reversed samples with step \<open>dx\<close> starting from 0, negate, reverse
  back. For \<open>n \<ge> 1\<close> the cumulative sequence \<open>S\<close> has \<open>n\<close> values and starts with 0,
  element \<open>i\<close> of the result is \<open>- S\<^sub>n\<^sub>-\<^sub>1\<^sub>-\<^sub>i\<close>, and at every even offset \<open>2m\<close> the
  value of \<open>S\<close> is the composite Simpson rule over the first \<open>m\<close> pairs of intervals
  of the reversed samples.
\<close>

theorem integrate_reverse_simpson_negate_reverse:
  assumes "shape a = [n]" and "wf_ndarray a"
  shows "integrate a dx
           = map_sum id (\<lambda>r. \<lparr>shape = [n], flat = r\<rparr>) (integrate_spec (flat a) dx)
         \<and> (1 \<le> n \<longrightarrow>
             (\<exists>S. cumulative_simpson (rev (flat a)) dx 0 = Inr S \<and> length S = n \<and> S ! 0 = 0
                \<and> integrate a dx = Inr \<lparr>shape = [n], flat = rev (map uminus S)\<rparr>
                \<and> (\<forall>i<n. rev (map uminus S) ! i = - (S ! (n - 1 - i)))
                \<and> (\<forall>m. 2 * m < n \<longrightarrow>
                      S ! (2 * m) = composite_simpson (rev (flat a)) dx m)))"
proof -
  have len: "length (flat a) = n"
    using assms by (simp add: wf_ndarray_def)
  have rank: "length (shape a) = 1"
    using assms(1) by simp
  have pipeline: "integrate a dx
           = map_sum id (\<lambda>r. \<lparr>shape = [n], flat = r\<rparr>) (integrate_spec (flat a) dx)"
  proof (cases n)
    case 0
    with len show ?thesis
      by (simp add: integrate_rank1 [OF rank] integrate_spec_def cumulative_simpson_empty)
  next
    case (Suc k)
    with len have ne: "rev (flat a) \<noteq> []"
      by auto
    from cumulative_simpson_shape [OF ne, of dx 0] len Suc show ?thesis
      by (auto simp: integrate_rank1 [OF rank] integrate_spec_def)
  qed
  have "\<exists>S. cumulative_simpson (rev (flat a)) dx 0 = Inr S \<and> length S = n \<and> S ! 0 = 0
           \<and> integrate a dx = Inr \<lparr>shape = [n], flat = rev (map uminus S)\<rparr>
           \<and> (\<forall>i<n. rev (map uminus S) ! i = - (S ! (n - 1 - i)))
           \<and> (\<forall>m. 2 * m < n \<longrightarrow> S ! (2 * m) = composite_simpson (rev (flat a)) dx m)"
    if "1 \<le> n"
  proof -
    from that len have ne: "rev (flat a) \<noteq> []"
      by auto
    from cumulative_simpson_shape [OF ne, of dx 0] len that
    obtain r where S: "cumulative_simpson (rev (flat a)) dx 0 = Inr (0 # r)"
      and r: "length (0 # r) = n"
      by auto
    have "integrate a dx = Inr \<lparr>shape = [n], flat = rev (map uminus (0 # r))\<rparr>"
      using S r by (simp add: integrate_rank1 [OF rank])
    moreover have "\<forall>i<n. rev (map uminus (0 # r)) ! i = - ((0 # r) ! (n - 1 - i))"
      using r by (simp add: rev_nth del: rev.simps list.map)
    moreover have "\<forall>m. 2 * m < n \<longrightarrow>
        (0 # r) ! (2 * m) = composite_simpson (rev (flat a)) dx m"
      using cumulative_simpson_composite [OF _ S] len by simp
    ultimately show ?thesis
      using S r by (intro exI [of _ "0 # r"]) simp
  qed
  with pipeline show ?thesis
    by blast
qed

theorem integrate_reverse_simpson_negate_reverse_witness:
  "integrate \<lparr>shape = [5], flat = [1, 4, 9, 16, 25]\<rparr> 1
     = Inr \<lparr>shape = [5], flat = [- (124 / 3), - 39, - (98 / 3), - (61 / 3), 0]\<rparr>
   \<and> integrate_spec [1, 4, 9, 16, 25] 1
     = Inr [- (124 / 3), - 39, - (98 / 3), - (61 / 3), 0]"
proof -
  let ?a = "\<lparr>shape = [5], flat = [1, 4, 9, 16, 25]\<rparr>"
  have spec: "integrate_spec [1, 4, 9, 16, 25] 1
      = Inr [- (124 / 3), - 39, - (98 / 3), - (61 / 3), 0]"
    by code_simp
  have "shape ?a = [5]" and "wf_ndarray ?a"
    by (simp_all add: wf_ndarray_def)
  from integrate_reverse_simpson_negate_reverse [OF this, of 1] spec show ?thesis
    by simp
qed

text \<open>
  C9: on a one-dimensional profile of length 1, \<open>integrate\<close> returns the
  one-element array \<open>[0]\<close>, for every spacing.
\<close>

theorem integrate_single_sample:
  assumes "shape a = [1]" and "wf_ndarray a"
  shows "integrate a dx = Inr \<lparr>shape = [1], flat = [0]\<rparr>"
proof -
  from assms obtain x where x: "flat a = [x]"
    by (cases "flat a") (auto simp: wf_ndarray_def)
  have "cumulative_simpson [x] dx 0 = Inr [0]"
    by (simp add: cumulative_simpson_def cumulative_trapezoid_def np_cumsum_def)
  with x assms(1) show ?thesis
    by (simp add: integrate_rank1)
qed

theorem integrate_single_sample_witness:
  "wf_ndarray \<lparr>shape = [1], flat = [7]\<rparr>
   \<and> integrate \<lparr>shape = [1], flat = [7]\<rparr> 2 = Inr \<lparr>shape = [1], flat = [0]\<rparr>"
proof -
  have h: "shape \<lparr>shape = [1], flat = [7]\<rparr> = [1]" "wf_ndarray \<lparr>shape = [1], flat = [7]\<rparr>"
    by (simp_all add: wf_ndarray_def)
  from integrate_single_sample [OF h, of 2] h(2) show ?thesis
    by simp
qed

text \<open>
  C10: on a one-dimensional profile of length \<open>n \<ge> 2\<close>, \<open>integrate\<close> returns an array
  of the same length \<open>n\<close> whose last element is 0, for every spacing and all sample
  values.
\<close>

theorem integrate_same_length_last_zero:
  assumes "shape a = [n]" and "wf_ndarray a" and "2 \<le> n"
  shows "\<exists>r. integrate a dx = Inr r \<and> shape r = [n] \<and> length (flat r) = n
           \<and> flat r ! (n - 1) = 0 \<and> last (flat r) = 0"
proof -
  have len: "length (flat a) = n"
    using assms by (simp add: wf_ndarray_def)
  with assms(3) have ne: "rev (flat a) \<noteq> []"
    by auto
  from cumulative_simpson_shape [OF ne, of dx 0] len assms(3)
  obtain r where S: "cumulative_simpson (rev (flat a)) dx 0 = Inr (0 # r)"
    and r: "length r = n - 1"
    by auto
  let ?xs = "rev (map uminus r)"
  have n: "Suc (length r) = n"
    using r assms(3) by simp
  have "integrate a dx = Inr \<lparr>shape = [Suc (length r)], flat = ?xs @ [0]\<rparr>"
    using S assms(1) by (simp add: integrate_rank1)
  then have out: "integrate a dx = Inr \<lparr>shape = [n], flat = ?xs @ [0]\<rparr>"
    using n by simp
  have "length ?xs = n - 1"
    using r by simp
  then have "(?xs @ [0]) ! (n - 1) = 0"
    by (simp add: nth_append)
  moreover have "length (?xs @ [0]) = n"
    using n by simp
  ultimately show ?thesis
    using out by simp
qed

theorem integrate_same_length_last_zero_witness:
  "wf_ndarray \<lparr>shape = [4], flat = [1, 2, 3, 4]\<rparr> \<and> (2::nat) \<le> 4
   \<and> integrate \<lparr>shape = [4], flat = [1, 2, 3, 4]\<rparr> 1
       = Inr \<lparr>shape = [4], flat = [- (15 / 2), - 6, - (7 / 2), 0]\<rparr>
   \<and> last [- (15 / 2), - 6, - (7 / 2), 0 :: real] = 0"
proof -
  let ?a = "\<lparr>shape = [4], flat = [1, 2, 3, 4]\<rparr>"
  have h: "shape ?a = [4]" "wf_ndarray ?a" "(2::nat) \<le> 4"
    by (simp_all add: wf_ndarray_def)
  have v: "integrate ?a 1 = Inr \<lparr>shape = [4], flat = [- (15 / 2), - 6, - (7 / 2), 0]\<rparr>"
    by code_simp
  from integrate_same_length_last_zero [OF h, of 1] v h show ?thesis
    by auto
qed

subsection \<open>The pipeline\<close>

text \<open>
  C2: \<open>longitudinal_profile F dx\<close> is \<open>integrate\<close> applied to the result of
  \<open>transverse_average F\<close>, a failure of the first stage being the failure of the
  whole. On a two-dimensional field the first stage succeeds and its result is
  one-dimensional, so the second stage's rank check accepts it.
\<close>

theorem longitudinal_profile_composition:
  "longitudinal_profile F dx
     = (case transverse_average F of Inl e \<Rightarrow> Inl e | Inr p \<Rightarrow> integrate p dx)
   \<and> (length (shape F) = 2 \<longrightarrow>
        (\<exists>p. transverse_average F = Inr p \<and> length (shape p) = 1
           \<and> longitudinal_profile F dx = integrate p dx))"
  by (simp add: longitudinal_profile_def then_stage_def transverse_average_def
      np_mean_axis1_def Let_def)

theorem longitudinal_profile_composition_witness:
  "longitudinal_profile \<lparr>shape = [2, 3], flat = [1, 2, 3, 4, 5, 6]\<rparr> 1
     = integrate \<lparr>shape = [2], flat = [2, 5]\<rparr> 1
   \<and> integrate \<lparr>shape = [2], flat = [2, 5]\<rparr> 1 = Inr \<lparr>shape = [2], flat = [- (7 / 2), 0]\<rparr>"
proof -
  let ?F = "\<lparr>shape = [2, 3], flat = [1, 2, 3, 4, 5, 6]\<rparr>"
  have v: "transverse_average ?F = Inr \<lparr>shape = [2], flat = [2, 5]\<rparr>"
    by code_simp
  have w: "integrate \<lparr>shape = [2], flat = [2, 5]\<rparr> 1 = Inr \<lparr>shape = [2], flat = [- (7 / 2), 0]\<rparr>"
    by code_simp
  from longitudinal_profile_composition [of ?F 1] v w show ?thesis
    by simp
qed


end
